theory Spec2Isabelle
  imports Main "HOL-Library.State_Monad"
begin

section \<open>Strings, splitting and the size limits of users.go\<close>

text \<open>
  A Go string is a sequence of bytes and \<open>len\<close> counts bytes; \<open>string\<close> (a list of
  8-bit \<open>char\<close>s) is the same thing, and \<open>length\<close> is \<open>len\<close>.
\<close>

definition minPassLen :: nat where "minPassLen = 8"
definition maxLocalLen :: nat where "maxLocalLen = 64"
definition maxDomainLen :: nat where "maxDomainLen = 255"
definition maxTLDLen :: nat where "maxTLDLen = 24"

text \<open>Both separators are one-byte strings, so they are modelled as the byte itself.\<close>

definition atSeparator :: char where "atSeparator = CHR ''@''"
definition dotSeparator :: char where "dotSeparator = CHR ''.''"

text \<open>
  \<open>strings.Split(s, sep)\<close> for a one-byte separator: the pieces of \<open>s\<close> between the
  occurrences of \<open>sep\<close>, in order. A string without the separator (the empty string
  too) gives the one-element result \<open>[s]\<close>.
\<close>

primrec Split :: "string \<Rightarrow> char \<Rightarrow> string list" where
  "Split [] sep = [[]]"
| "Split (c # cs) sep =
     (if c = sep then [] # Split cs sep
      else (case Split cs sep of [] \<Rightarrow> [[c]] | p # ps \<Rightarrow> (c # p) # ps))"

section \<open>Regular expressions\<close>

text \<open>
  The three patterns of users.go are kept as syntax trees and given the meaning that
  \<open>regexp.MatchString\<close> gives them: the pattern matches some substring of the text,
  where \<open>^\<close> and \<open>$\<close> hold only at the two ends of the whole text (no flag is set).
  The patterns only ever name ASCII bytes, the class \<open>\s\<close> and its complement, so the
  byte-wise reading below accepts the same texts as the rune-wise reading of the
  library: a byte of a multi-byte rune is in no positive class of these patterns and
  is in the negated class \<open>[^\s]\<close>, as the rune itself is.
\<close>

datatype citem = Range char char | Single char | PerlSpace

fun in_item :: "citem \<Rightarrow> char \<Rightarrow> bool" where
  "in_item (Range lo hi) c = ((of_char lo :: nat) \<le> of_char c \<and> (of_char c :: nat) \<le> of_char hi)"
| "in_item (Single a) c = (c = a)"
| "in_item PerlSpace c = (c \<in> set [CHR 0x09, CHR 0x0A, CHR 0x0C, CHR 0x0D, CHR 0x20])"

definition in_class :: "bool \<Rightarrow> citem list \<Rightarrow> char \<Rightarrow> bool" where
  "in_class negated items c = (list_ex (\<lambda>i. in_item i c) items \<noteq> negated)"

datatype regexp =
    BeginText
  | EndText
  | Literal char
  | CharClass bool "citem list"
  | Capture regexp
  | Concat regexp regexp
  | Alternate regexp regexp
  | Plus regexp
  | Repeat regexp nat "nat option"

text \<open>All ways of cutting a text in two.\<close>

definition cuts :: "string \<Rightarrow> (string \<times> string) list" where
  "cuts w = map (\<lambda>k. (take k w, drop k w)) [0..<Suc (length w)]"

text \<open>
  \<open>iter n m pre w post\<close>: \<open>w\<close> is \<open>n\<close> pieces in a row, each accepted by \<open>m\<close> in its
  own context (the text before it and the text after it).
\<close>

primrec iter :: "nat \<Rightarrow> (string \<Rightarrow> string \<Rightarrow> string \<Rightarrow> bool) \<Rightarrow> string \<Rightarrow> string \<Rightarrow> string \<Rightarrow> bool" where
  "iter 0 m pre w post = (w = [])"
| "iter (Suc n) m pre w post =
     (\<exists>(u, v) \<in> set (cuts w). m pre u (v @ post) \<and> iter n m (pre @ u) v post)"

text \<open>
  \<open>matches r pre w post\<close>: the pattern \<open>r\<close> matches the piece \<open>w\<close> of the text
  \<open>pre @ w @ post\<close>. An unbounded repetition of a piece of length \<open>n\<close> never needs
  more than \<open>n\<close> rounds beyond its minimum, since a round that consumes nothing can
  be left out.
\<close>

primrec matches :: "regexp \<Rightarrow> string \<Rightarrow> string \<Rightarrow> string \<Rightarrow> bool" where
  "matches BeginText pre w post = (pre = [] \<and> w = [])"
| "matches EndText pre w post = (w = [] \<and> post = [])"
| "matches (Literal a) pre w post = (w = [a])"
| "matches (CharClass negated items) pre w post =
     (case w of [c] \<Rightarrow> in_class negated items c | _ \<Rightarrow> False)"
| "matches (Capture r) pre w post = matches r pre w post"
| "matches (Concat r1 r2) pre w post =
     (\<exists>(u, v) \<in> set (cuts w). matches r1 pre u (v @ post) \<and> matches r2 (pre @ u) v post)"
| "matches (Alternate r1 r2) pre w post = (matches r1 pre w post \<or> matches r2 pre w post)"
| "matches (Plus r) pre w post =
     (\<exists>n \<in> set [1..<Suc (Suc (length w))]. iter n (matches r) pre w post)"
| "matches (Repeat r lo hi) pre w post =
     (\<exists>n \<in> set [lo..<Suc (case hi of None \<Rightarrow> lo + length w | Some h \<Rightarrow> h)].
        iter n (matches r) pre w post)"

text \<open>\<open>re.MatchString(s)\<close>: some piece of \<open>s\<close> is matched.\<close>

definition MatchString :: "regexp \<Rightarrow> string \<Rightarrow> bool" where
  "MatchString r s =
     (\<exists>(pre, rest) \<in> set (cuts s). \<exists>(w, post) \<in> set (cuts rest). matches r pre w post)"

text \<open>\<open>^[a-zA-Z0-9!#$%&'*+/=?^_`{|}~.-]+$\<close>\<close>

definition userClass :: "citem list" where
  "userClass =
     [Range CHR ''a'' CHR ''z'', Range CHR ''A'' CHR ''Z'', Range CHR ''0'' CHR ''9'',
      Single CHR ''!'', Single CHR ''#'', Single CHR ''$'', Single CHR ''%'',
      Single CHR ''&'', Single CHR 0x27, Single CHR ''*'', Single CHR ''+'',
      Single CHR ''/'', Single CHR ''='', Single CHR ''?'', Single CHR ''^'',
      Single CHR ''_'', Single CHR 0x60, Single CHR ''{'', Single CHR ''|'',
      Single CHR ''}'', Single CHR ''~'', Single CHR ''.'', Single CHR ''-'']"

definition userRegexp :: regexp where
  "userRegexp = Concat BeginText (Concat (Plus (CharClass False userClass)) EndText)"

text \<open>\<open>^[^\s]+\.[^\s]+$\<close>\<close>

definition hostRegexp :: regexp where
  "hostRegexp =
     Concat BeginText
       (Concat (Plus (CharClass True [PerlSpace]))
          (Concat (Literal CHR ''.'')
             (Concat (Plus (CharClass True [PerlSpace])) EndText)))"

text \<open>\<open>(^[.]{1})|([.]{1}$)|([.]{2,})\<close>\<close>

definition userDotRegexp :: regexp where
  "userDotRegexp =
     Alternate
       (Capture (Concat BeginText (Repeat (CharClass False [Single CHR ''.'']) 1 (Some 1))))
       (Alternate
          (Capture (Concat (Repeat (CharClass False [Single CHR ''.'']) 1 (Some 1)) EndText))
          (Capture (Repeat (CharClass False [Single CHR ''.'']) 2 None)))"

section \<open>The user entity and its validation\<close>

text \<open>
  \<open>Metadata\<close> is a \<open>map[string]interface{}\<close>: a map from strings to values of any
  type, here the type parameter \<open>'v\<close>.
\<close>

record 'v User =
  Email :: string
  Password :: string
  Metadata :: "string \<rightharpoonup> 'v"

text \<open>
  Modelled from the spec: the error values of the package are declared outside
  users.go; section 7 of the specification lists the four kinds, and
  \<open>ErrMalformedEntity\<close> is the value of kind \<open>MalformedEntity\<close>.
\<close>

datatype error = MalformedEntity | NotFound | Conflict | Internal

definition ErrMalformedEntity :: error where
  "ErrMalformedEntity = MalformedEntity"

text \<open>
  \<open>idna.ToASCII\<close> belongs to the library golang.org/x/net/idna, not to this
  repository: it is a parameter of the model, a function from the string to its
  ASCII form, or to \<open>None\<close> where the library returns an error.
\<close>

type_synonym idna = "string \<Rightarrow> string option"

definition isEmail :: "idna \<Rightarrow> string \<Rightarrow> bool" where
  "isEmail toASCII email =
     (if email = [] then False
      else
        let es = Split email atSeparator in
        if length es \<noteq> 2 then False
        else
          let local = es ! 0; host = es ! 1 in
          if local = [] \<or> length local > maxLocalLen then False
          else
            let hs = Split host dotSeparator in
            if length hs \<noteq> 2 then False
            else
              let domain = hs ! 0; ext = hs ! 1 in
              if domain = [] \<or> length domain > maxDomainLen then False
              else if ext = [] \<or> length ext > maxTLDLen then False
              else
                (case toASCII local of
                   None \<Rightarrow> False
                 | Some punyLocal \<Rightarrow>
                     (case toASCII host of
                        None \<Rightarrow> False
                      | Some punyHost \<Rightarrow>
                          if MatchString userDotRegexp punyLocal
                             \<or> \<not> MatchString userRegexp punyLocal
                             \<or> \<not> MatchString hostRegexp punyHost
                          then False
                          else True)))"

text \<open>\<open>Validate\<close> returns \<open>nil\<close> (\<open>None\<close>) or an error.\<close>

definition Validate :: "idna \<Rightarrow> 'v User \<Rightarrow> error option" where
  "Validate toASCII u =
     (if \<not> isEmail toASCII (Email u) then Some ErrMalformedEntity
      else if length (Password u) < minPassLen then Some ErrMalformedEntity
      else None)"

section \<open>The two bodies as programs over a store\<close>

text \<open>
  What a call can reach besides its arguments: the three package variables, which are
  declared with \<open>var\<close> and so can be assigned, and, for the method, its receiver
  \<open>u\<close>. The receiver is kept with the contents of the map its \<open>Metadata\<close> field
  refers to: that map is the one object the receiver shares with the caller's \<open>User\<close>,
  whose two strings are copied. A write by a body to a package variable, to a field of
  \<open>u\<close> or to an entry of the map is an update of this store, and a read is a \<open>read\<close>
  of it. The conversion stays a function of its argument.
\<close>

record 'v store =
  userRegexp_var :: regexp
  hostRegexp_var :: regexp
  userDotRegexp_var :: regexp
  receiver :: "'v User"

abbreviation return :: "'a \<Rightarrow> ('s, 'a) state" where
  "return \<equiv> State_Monad.return"

definition read :: "('s \<Rightarrow> 'a) \<Rightarrow> ('s, 'a) state" where
  "read field = do { \<sigma> \<leftarrow> State_Monad.get; return (field \<sigma>) }"

text \<open>The package variables hold the values their declarations give them.\<close>

definition package_init :: "'v store \<Rightarrow> bool" where
  "package_init \<sigma> \<longleftrightarrow>
     userRegexp_var \<sigma> = userRegexp \<and> hostRegexp_var \<sigma> = hostRegexp
     \<and> userDotRegexp_var \<sigma> = userDotRegexp"

text \<open>
  The body of \<open>isEmail\<close>, statement by statement. The three patterns are read from
  the package variables where the \<open>||\<close> of the last test evaluates them, from left
  to right and only as far as needed.
\<close>

definition isEmail_m :: "idna \<Rightarrow> string \<Rightarrow> ('v store, bool) state" where
  "isEmail_m toASCII email =
     (if email = [] then return False
      else
        let es = Split email atSeparator in
        if length es \<noteq> 2 then return False
        else
          let local = es ! 0; host = es ! 1 in
          if local = [] \<or> length local > maxLocalLen then return False
          else
            let hs = Split host dotSeparator in
            if length hs \<noteq> 2 then return False
            else
              let domain = hs ! 0; ext = hs ! 1 in
              if domain = [] \<or> length domain > maxDomainLen then return False
              else if ext = [] \<or> length ext > maxTLDLen then return False
              else
                (case toASCII local of
                   None \<Rightarrow> return False
                 | Some punyLocal \<Rightarrow>
                     (case toASCII host of
                        None \<Rightarrow> return False
                      | Some punyHost \<Rightarrow> do {
                          dotRe \<leftarrow> read userDotRegexp_var;
                          if MatchString dotRe punyLocal then return False
                          else do {
                            userRe \<leftarrow> read userRegexp_var;
                            if \<not> MatchString userRe punyLocal then return False
                            else do {
                              hostRe \<leftarrow> read hostRegexp_var;
                              if \<not> MatchString hostRe punyHost then return False
                              else return True
                            }
                          }
                        })))"

text \<open>
  The body of \<open>Validate\<close>: it reads \<open>u.Email\<close>, calls \<open>isEmail\<close>, and reads
  \<open>u.Password\<close> in the store that call leaves.
\<close>

definition Validate_m :: "idna \<Rightarrow> ('v store, error option) state" where
  "Validate_m toASCII = do {
     u \<leftarrow> read receiver;
     ok \<leftarrow> isEmail_m toASCII (Email u);
     if \<not> ok then return (Some ErrMalformedEntity)
     else do {
       u \<leftarrow> read receiver;
       if length (Password u) < minPassLen then return (Some ErrMalformedEntity)
       else return None
     }
   }"

section \<open>Notions of the specification\<close>

text \<open>
  The specification's wording for the shape of the encoded local part: it starts with
  a dot, it ends with a dot, it has two dots in a row.
\<close>

definition starts_with_dot :: "string \<Rightarrow> bool" where
  "starts_with_dot s = (case s of [] \<Rightarrow> False | c # _ \<Rightarrow> c = CHR ''.'')"

definition ends_with_dot :: "string \<Rightarrow> bool" where
  "ends_with_dot s = (s \<noteq> [] \<and> last s = CHR ''.'')"

fun consecutive_dots :: "string \<Rightarrow> bool" where
  "consecutive_dots (c # d # cs) =
     ((c = CHR ''.'' \<and> d = CHR ''.'') \<or> consecutive_dots (d # cs))"
| "consecutive_dots [c] = False"
| "consecutive_dots [] = False"

text \<open>A dot that is neither the first nor the last byte.\<close>

definition inner_dot :: "string \<Rightarrow> bool" where
  "inner_dot s = (CHR ''.'' \<in> set (butlast (tl s)))"

text \<open>
  The number of Unicode characters of a well-formed UTF-8 string: every byte starts
  one, except the continuation bytes \<open>0x80\<close> to \<open>0xBF\<close>.
\<close>

definition utf8_chars :: "string \<Rightarrow> nat" where
  "utf8_chars s =
     length (filter (\<lambda>c. \<not> (0x80 \<le> (of_char c :: nat) \<and> (of_char c :: nat) \<le> 0xBF)) s)"

section \<open>Concrete inputs\<close>

text \<open>
  A conversion that returns its input as it is. On a string of ASCII bytes without a
  label that starts with the ACE prefix \<open>xn--\<close>, \<open>idna.ToASCII\<close> does the same; the
  instances below call it on such strings only.
\<close>

definition unchanged :: idna where
  "unchanged s = Some s"

text \<open>A local part of 64 bytes of the allowed set, and one of 65.\<close>

definition local64 :: string where
  "local64 = ''abcdefghijklmnopqrstuvwxyzABCDEFGHIJKLMNOPQRSTUVWXYZ0123456789+_''"

definition local65 :: string where
  "local65 = ''abcdefghijklmnopqrstuvwxyzABCDEFGHIJKLMNOPQRSTUVWXYZ0123456789+_-''"

text \<open>Thirty-three times U+00E9 in UTF-8: 33 characters, 66 bytes.\<close>

definition accents33 :: string where
  "accents33 =
     [CHR 0xC3, CHR 0xA9, CHR 0xC3, CHR 0xA9, CHR 0xC3, CHR 0xA9, CHR 0xC3, CHR 0xA9,
      CHR 0xC3, CHR 0xA9, CHR 0xC3, CHR 0xA9, CHR 0xC3, CHR 0xA9, CHR 0xC3, CHR 0xA9,
      CHR 0xC3, CHR 0xA9, CHR 0xC3, CHR 0xA9, CHR 0xC3, CHR 0xA9, CHR 0xC3, CHR 0xA9,
      CHR 0xC3, CHR 0xA9, CHR 0xC3, CHR 0xA9, CHR 0xC3, CHR 0xA9, CHR 0xC3, CHR 0xA9,
      CHR 0xC3, CHR 0xA9, CHR 0xC3, CHR 0xA9, CHR 0xC3, CHR 0xA9, CHR 0xC3, CHR 0xA9,
      CHR 0xC3, CHR 0xA9, CHR 0xC3, CHR 0xA9, CHR 0xC3, CHR 0xA9, CHR 0xC3, CHR 0xA9,
      CHR 0xC3, CHR 0xA9, CHR 0xC3, CHR 0xA9, CHR 0xC3, CHR 0xA9, CHR 0xC3, CHR 0xA9,
      CHR 0xC3, CHR 0xA9, CHR 0xC3, CHR 0xA9, CHR 0xC3, CHR 0xA9, CHR 0xC3, CHR 0xA9,
      CHR 0xC3, CHR 0xA9]"

text \<open>
  The 32 characters U+0100, U+0135, ... (steps of 53) up to U+076B in UTF-8, 64 bytes,
  and the 85 bytes of their Punycode form under the ACE prefix (RFC 3492).
\<close>

definition latin32 :: string where
  "latin32 =
     [CHR 0xC4, CHR 0x80, CHR 0xC4, CHR 0xB5, CHR 0xC5, CHR 0xAA, CHR 0xC6, CHR 0x9F,
      CHR 0xC7, CHR 0x94, CHR 0xC8, CHR 0x89, CHR 0xC8, CHR 0xBE, CHR 0xC9, CHR 0xB3,
      CHR 0xCA, CHR 0xA8, CHR 0xCB, CHR 0x9D, CHR 0xCC, CHR 0x92, CHR 0xCD, CHR 0x87,
      CHR 0xCD, CHR 0xBC, CHR 0xCE, CHR 0xB1, CHR 0xCF, CHR 0xA6, CHR 0xD0, CHR 0x9B,
      CHR 0xD1, CHR 0x90, CHR 0xD2, CHR 0x85, CHR 0xD2, CHR 0xBA, CHR 0xD3, CHR 0xAF,
      CHR 0xD4, CHR 0xA4, CHR 0xD5, CHR 0x99, CHR 0xD6, CHR 0x8E, CHR 0xD7, CHR 0x83,
      CHR 0xD7, CHR 0xB8, CHR 0xD8, CHR 0xAD, CHR 0xD9, CHR 0xA2, CHR 0xDA, CHR 0x97,
      CHR 0xDB, CHR 0x8C, CHR 0xDC, CHR 0x81, CHR 0xDC, CHR 0xB6, CHR 0xDD, CHR 0xAB]"

definition latin32_puny :: string where
  "latin32_puny =
     ''xn--xda0ipg4hwj2kxm8nmp8qzs2trvgx1yxzk1aj1a12ak4a25al7a38amzb40bn1b52bo4b65bp6b77bq9b''"

text \<open>The conversion \<open>unchanged\<close>, except that \<open>latin32\<close> goes to its Punycode form.\<close>

definition puny_sample :: idna where
  "puny_sample s = (if s = latin32 then Some latin32_puny else Some s)"

text \<open>
  A store with the package variables as declared and a receiver whose password has 6
  bytes.
\<close>

definition sample_store :: "nat store" where
  "sample_store =
     \<lparr>userRegexp_var = userRegexp, hostRegexp_var = hostRegexp,
      userDotRegexp_var = userDotRegexp,
      receiver = \<lparr>Email = ''user@example.com'', Password = ''secret'',
                  Metadata = [''plan'' \<mapsto> 3]\<rparr>\<rparr>"

section \<open>Facts about the regular expressions\<close>

lemma cuts_iff: "(u, v) \<in> set (cuts w) \<longleftrightarrow> w = u @ v"
proof
  assume "(u, v) \<in> set (cuts w)"
  then show "w = u @ v" by (auto simp: cuts_def)
next
  assume w: "w = u @ v"
  have "length u < Suc (length w)" using w by simp
  then have "(take (length u) w, drop (length u) w) \<in> set (cuts w)"
    unfolding cuts_def set_map set_upt by (intro imageI) simp
  then show "(u, v) \<in> set (cuts w)" using w by simp
qed

lemma bex_cuts: "(\<exists>(u, v) \<in> set (cuts w). P u v) \<longleftrightarrow> (\<exists>u v. w = u @ v \<and> P u v)"
proof
  assume "\<exists>(u, v) \<in> set (cuts w). P u v"
  then obtain u v where "(u, v) \<in> set (cuts w)" "P u v" by blast
  then show "\<exists>u v. w = u @ v \<and> P u v" using cuts_iff by blast
next
  assume "\<exists>u v. w = u @ v \<and> P u v"
  then obtain u v where "w = u @ v" "P u v" by blast
  then have "(u, v) \<in> set (cuts w)" using cuts_iff by blast
  with \<open>P u v\<close> show "\<exists>(u, v) \<in> set (cuts w). P u v" by blast
qed

lemma matches_Concat:
  "matches (Concat r1 r2) pre w post \<longleftrightarrow>
     (\<exists>u v. w = u @ v \<and> matches r1 pre u (v @ post) \<and> matches r2 (pre @ u) v post)"
  by (simp add: bex_cuts)

lemma iter_Suc:
  "iter (Suc n) m pre w post \<longleftrightarrow>
     (\<exists>u v. w = u @ v \<and> m pre u (v @ post) \<and> iter n m (pre @ u) v post)"
  by (simp add: bex_cuts)

lemma matches_CharClass:
  "matches (CharClass negated items) pre w post \<longleftrightarrow> (\<exists>c. w = [c] \<and> in_class negated items c)"
  by (cases w; cases "tl w") auto

lemma iter_one_byte:
  assumes m: "\<And>pre w post. m pre w post \<longleftrightarrow> (\<exists>c. w = [c] \<and> P c)"
  shows "iter n m pre w post \<longleftrightarrow> length w = n \<and> list_all P w"
proof (induction n arbitrary: pre w)
  case 0
  show ?case by auto
next
  case (Suc n)
  show ?case
  proof
    assume "iter (Suc n) m pre w post"
    then obtain u v where w: "w = u @ v" and u: "m pre u (v @ post)"
      and v: "iter n m (pre @ u) v post"
      unfolding iter_Suc by blast
    from u obtain c where "u = [c]" "P c" using m by blast
    moreover from v have "length v = n \<and> list_all P v" using Suc.IH by blast
    ultimately show "length w = Suc n \<and> list_all P w" using w by simp
  next
    assume a: "length w = Suc n \<and> list_all P w"
    then obtain c v where w: "w = c # v" by (cases w) auto
    with a have "P c" "length v = n \<and> list_all P v" by auto
    then have "m pre [c] (v @ post)" "iter n m (pre @ [c]) v post"
      using m Suc.IH by blast+
    then show "iter (Suc n) m pre w post"
      unfolding iter_Suc using w by (intro exI[of _ "[c]"] exI[of _ v]) simp
  qed
qed

lemma iter_CharClass:
  "iter n (matches (CharClass negated items)) pre w post \<longleftrightarrow>
     length w = n \<and> list_all (in_class negated items) w"
  by (rule iter_one_byte) (rule matches_CharClass)

lemma matches_Plus_CharClass:
  "matches (Plus (CharClass negated items)) pre w post \<longleftrightarrow>
     w \<noteq> [] \<and> list_all (in_class negated items) w"
proof -
  have "(\<exists>n\<in>set [1..<Suc (Suc (length w))]. length w = n \<and> list_all (in_class negated items) w)
        \<longleftrightarrow> w \<noteq> [] \<and> list_all (in_class negated items) w"
    by (cases w) auto
  then show ?thesis by (simp only: matches.simps iter_CharClass)
qed

lemma matches_Repeat_CharClass:
  "matches (Repeat (CharClass negated items) lo hi) pre w post \<longleftrightarrow>
     lo \<le> length w \<and> (case hi of None \<Rightarrow> True | Some h \<Rightarrow> length w \<le> h)
     \<and> list_all (in_class negated items) w"
proof -
  have "matches (Repeat (CharClass negated items) lo hi) pre w post \<longleftrightarrow>
     (\<exists>n\<in>set [lo..<Suc (case hi of None \<Rightarrow> lo + length w | Some h \<Rightarrow> h)].
        length w = n \<and> list_all (in_class negated items) w)"
    by (simp only: matches.simps iter_CharClass)
  also have "\<dots> \<longleftrightarrow> lo \<le> length w \<and> (case hi of None \<Rightarrow> True | Some h \<Rightarrow> length w \<le> h)
     \<and> list_all (in_class negated items) w"
    by (cases hi) auto
  finally show ?thesis .
qed

text \<open>
  The bound on the number of rounds loses nothing for the repetitions of the three
  patterns, whose bodies are one-byte classes.
\<close>

lemma Plus_CharClass_unbounded:
  "matches (Plus (CharClass negated items)) pre w post \<longleftrightarrow>
     (\<exists>n\<ge>1. iter n (matches (CharClass negated items)) pre w post)"
  unfolding matches_Plus_CharClass iter_CharClass by (cases w) auto

lemma Repeat_CharClass_unbounded:
  "matches (Repeat (CharClass negated items) lo None) pre w post \<longleftrightarrow>
     (\<exists>n\<ge>lo. iter n (matches (CharClass negated items)) pre w post)"
  unfolding matches_Repeat_CharClass iter_CharClass by auto

lemma MatchString_iff:
  "MatchString r s \<longleftrightarrow> (\<exists>pre w post. s = pre @ w @ post \<and> matches r pre w post)"
  unfolding MatchString_def bex_cuts by blast

lemma MatchString_userRegexp:
  "MatchString userRegexp s \<longleftrightarrow> s \<noteq> [] \<and> list_all (in_class False userClass) s"
  unfolding MatchString_iff userRegexp_def matches_Concat matches_Plus_CharClass
  by (auto simp del: list_all_iff)

lemma MatchString_hostRegexp:
  "MatchString hostRegexp s \<longleftrightarrow>
     (\<exists>a b. s = a @ CHR ''.'' # b \<and> a \<noteq> [] \<and> b \<noteq> []
        \<and> list_all (in_class True [PerlSpace]) a \<and> list_all (in_class True [PerlSpace]) b)"
  (is "?L \<longleftrightarrow> ?R")
proof
  assume ?L
  then show ?R
    unfolding MatchString_iff hostRegexp_def matches_Concat matches_Plus_CharClass
    by (auto simp del: list_all_iff)
next
  assume ?R
  then obtain a b where s: "s = a @ CHR ''.'' # b" and ab: "a \<noteq> []" "b \<noteq> []"
    "list_all (in_class True [PerlSpace]) a" "list_all (in_class True [PerlSpace]) b"
    by blast
  have "matches hostRegexp [] s []"
    unfolding hostRegexp_def matches_Concat matches_Plus_CharClass
    apply (rule exI[of _ "[]"], rule exI[of _ s], simp)
    apply (rule exI[of _ a], rule exI[of _ "CHR ''.'' # b"])
    using s ab by simp
  then show ?L unfolding MatchString_iff by (intro exI[of _ "[]"] exI[of _ s]) simp
qed

lemma in_class_dot: "in_class False [Single CHR ''.''] c \<longleftrightarrow> c = CHR ''.''"
  by (simp add: in_class_def)

lemma matches_userDotRegexp:
  "matches userDotRegexp pre w post \<longleftrightarrow>
     (pre = [] \<and> w = [CHR ''.'']) \<or> (w = [CHR ''.''] \<and> post = [])
     \<or> (2 \<le> length w \<and> list_all (\<lambda>c. c = CHR ''.'') w)"
proof -
  have one: "(1 \<le> length u \<and> length u \<le> 1 \<and> list_all (\<lambda>c. c = CHR ''.'') u) \<longleftrightarrow> u = [CHR ''.'']" for u
    by (cases u; cases "tl u") auto
  show ?thesis
    unfolding userDotRegexp_def matches.simps(5,7) matches_Concat matches_Repeat_CharClass
      in_class_dot option.case matches.simps(1,2) one
    by (auto simp del: list_all_iff)
qed

lemma consecutive_dots_append:
  "consecutive_dots (a @ CHR ''.'' # CHR ''.'' # b)"
proof (induction a)
  case Nil
  show ?case by simp
next
  case (Cons x a)
  then show ?case by (cases a) auto
qed

lemma consecutive_dots_iff:
  "consecutive_dots s \<longleftrightarrow> (\<exists>a w b. s = a @ w @ b \<and> 2 \<le> length w \<and> list_all (\<lambda>c. c = CHR ''.'') w)"
  (is "?L \<longleftrightarrow> ?R")
proof
  assume ?L
  then have "\<exists>a b. s = a @ CHR ''.'' # CHR ''.'' # b"
  proof (induction s rule: consecutive_dots.induct)
    case (1 c d cs)
    show ?case
    proof (cases "c = CHR ''.'' \<and> d = CHR ''.''")
      case True
      then have "c # d # cs = [] @ CHR ''.'' # CHR ''.'' # cs" by simp
      then show ?thesis by blast
    next
      case False
      with 1 obtain a b where "d # cs = a @ CHR ''.'' # CHR ''.'' # b" by auto
      then have "c # d # cs = (c # a) @ CHR ''.'' # CHR ''.'' # b" by simp
      then show ?thesis by blast
    qed
  qed simp_all
  then obtain a b where "s = a @ [CHR ''.'', CHR ''.''] @ b" by auto
  then show ?R by (intro exI[of _ a] exI[of _ "[CHR ''.'', CHR ''.'']"] exI[of _ b]) simp
next
  assume ?R
  then obtain a w b where s: "s = a @ w @ b" and w: "2 \<le> length w" "list_all (\<lambda>c. c = CHR ''.'') w"
    by blast
  from w obtain w' where "w = CHR ''.'' # CHR ''.'' # w'"
    by (cases w; cases "tl w") auto
  with s have "s = a @ CHR ''.'' # CHR ''.'' # (w' @ b)" by simp
  then show ?L using consecutive_dots_append by metis
qed

lemma MatchString_userDotRegexp:
  "MatchString userDotRegexp s \<longleftrightarrow> starts_with_dot s \<or> ends_with_dot s \<or> consecutive_dots s"
  (is "?L \<longleftrightarrow> ?R")
proof
  assume ?L
  then obtain pre w post where s: "s = pre @ w @ post" and m: "matches userDotRegexp pre w post"
    unfolding MatchString_iff by blast
  from m consider "pre = []" "w = [CHR ''.'']" | "w = [CHR ''.'']" "post = []"
    | "2 \<le> length w \<and> list_all (\<lambda>c. c = CHR ''.'') w"
    unfolding matches_userDotRegexp by blast
  then show ?R
  proof cases
    case 1
    with s show ?thesis by (simp add: starts_with_dot_def)
  next
    case 2
    with s show ?thesis by (simp add: ends_with_dot_def)
  next
    case 3
    with s show ?thesis unfolding consecutive_dots_iff by blast
  qed
next
  assume ?R
  then consider "starts_with_dot s" | "ends_with_dot s" | "consecutive_dots s" by blast
  then show ?L
  proof cases
    case 1
    then obtain t where "s = [] @ [CHR ''.''] @ t"
      by (cases s) (auto simp: starts_with_dot_def)
    moreover have "matches userDotRegexp [] [CHR ''.''] t"
      unfolding matches_userDotRegexp by simp
    ultimately show ?thesis unfolding MatchString_iff by blast
  next
    case 2
    then have "s = butlast s @ [CHR ''.''] @ []"
      by (simp add: ends_with_dot_def) (metis append_butlast_last_id)
    moreover have "matches userDotRegexp (butlast s) [CHR ''.''] []"
      unfolding matches_userDotRegexp by simp
    ultimately show ?thesis unfolding MatchString_iff by blast
  next
    case 3
    then obtain a w b where "s = a @ w @ b" "2 \<le> length w \<and> list_all (\<lambda>c. c = CHR ''.'') w"
      unfolding consecutive_dots_iff by blast
    moreover from this have "matches userDotRegexp a w b"
      unfolding matches_userDotRegexp by blast
    ultimately show ?thesis unfolding MatchString_iff by blast
  qed
qed

lemma inner_dot_iff: "inner_dot s \<longleftrightarrow> (\<exists>a b. s = a @ CHR ''.'' # b \<and> a \<noteq> [] \<and> b \<noteq> [])"
  (is "?L \<longleftrightarrow> ?R")
proof
  assume ?L
  then obtain p q where pq: "butlast (tl s) = p @ CHR ''.'' # q"
    unfolding inner_dot_def by (meson split_list)
  then have ne: "tl s \<noteq> []" by auto
  then have "tl s = butlast (tl s) @ [last (tl s)]" by simp
  with pq have "tl s = p @ CHR ''.'' # (q @ [last (tl s)])" by simp
  moreover from ne have "s = hd s # tl s" by (cases s) auto
  ultimately have "s = (hd s # p) @ CHR ''.'' # (q @ [last (tl s)])" by simp
  then show ?R by blast
next
  assume ?R
  then obtain a b where s: "s = a @ CHR ''.'' # b" and "a \<noteq> []" "b \<noteq> []" by blast
  then obtain x a' where "a = x # a'" by (cases a) auto
  with s \<open>b \<noteq> []\<close> have "butlast (tl s) = a' @ CHR ''.'' # butlast b"
    by (simp add: butlast_append)
  then show ?L unfolding inner_dot_def by simp
qed

lemma MatchString_hostRegexp_exec:
  "MatchString hostRegexp s \<longleftrightarrow> inner_dot s \<and> list_all (in_class True [PerlSpace]) s"
  unfolding MatchString_hostRegexp inner_dot_iff
  by (rule iffI; clarsimp simp del: list_all_iff; fastforce simp: in_class_def)

text \<open>The matcher itself, run on a few short texts.\<close>

lemma MatchString_samples:
  "MatchString userRegexp ''a.b+c''" "\<not> MatchString userRegexp ''a b''"
  "\<not> MatchString userRegexp []"
  "MatchString userDotRegexp ''a..b''" "MatchString userDotRegexp ''.a''"
  "MatchString userDotRegexp ''a.''" "\<not> MatchString userDotRegexp ''a.b''"
  "MatchString hostRegexp ''b.com''" "\<not> MatchString hostRegexp ''b. com''"
  "\<not> MatchString hostRegexp ''bcom.''"
  by code_simp+

section \<open>Facts about splitting and the shape of accepted addresses\<close>

lemma Split_not_Nil: "Split s sep \<noteq> []"
  by (induction s) (auto split: list.splits)

lemma length_Split: "length (Split s sep) = Suc (count_list s sep)"
  by (induction s) (auto split: list.splits simp: Split_not_Nil)

lemma Split_no_sep: "sep \<notin> set s \<Longrightarrow> Split s sep = [s]"
  by (induction s) auto

lemma Split_append: "sep \<notin> set a \<Longrightarrow> Split (a @ sep # b) sep = a # Split b sep"
  by (induction a) auto

lemma Split_two_iff:
  "Split s sep = [a, b] \<longleftrightarrow> s = a @ sep # b \<and> sep \<notin> set a \<and> sep \<notin> set b"
  (is "?L \<longleftrightarrow> ?R")
proof
  assume L: ?L
  then have c1: "count_list s sep = 1" using length_Split[of s sep] by simp
  then have "sep \<in> set s" by (metis count_list_0_iff zero_neq_one)
  then obtain p q where s: "s = p @ sep # q" and p: "sep \<notin> set p"
    by (meson split_list_first)
  with c1 have "count_list q sep = 0" by (simp add: count_list_0_iff)
  then have q: "sep \<notin> set q" by (simp add: count_list_0_iff)
  from s p q have "Split s sep = [p, q]" by (simp add: Split_append Split_no_sep)
  with L s p q show ?R by simp
next
  assume ?R
  then show ?L by (simp add: Split_append Split_no_sep)
qed

lemma length_Split_two:
  "length (Split s sep) = 2 \<longleftrightarrow> (\<exists>a b. Split s sep = [a, b])"
  by (cases "Split s sep"; cases "tl (Split s sep)") auto

lemma isEmail_iff:
  "isEmail toASCII email \<longleftrightarrow>
     (\<exists>local host domain ext punyLocal punyHost.
        Split email atSeparator = [local, host]
        \<and> local \<noteq> [] \<and> length local \<le> maxLocalLen
        \<and> Split host dotSeparator = [domain, ext]
        \<and> domain \<noteq> [] \<and> length domain \<le> maxDomainLen
        \<and> ext \<noteq> [] \<and> length ext \<le> maxTLDLen
        \<and> toASCII local = Some punyLocal \<and> toASCII host = Some punyHost
        \<and> \<not> MatchString userDotRegexp punyLocal
        \<and> MatchString userRegexp punyLocal
        \<and> MatchString hostRegexp punyHost)"
  (is "?L \<longleftrightarrow> ?R")
proof (cases "length (Split email atSeparator) = 2")
  case False
  then have "\<not> ?L" by (simp add: isEmail_def Let_def)
  moreover from False have "\<not> ?R" by auto
  ultimately show ?thesis by blast
next
  case True
  then obtain local host where es: "Split email atSeparator = [local, host]"
    unfolding length_Split_two by blast
  then have ne: "email \<noteq> []" by auto
  show ?thesis
  proof (cases "length (Split host dotSeparator) = 2")
    case False
    then have "\<not> ?L" using es ne by (simp add: isEmail_def Let_def)
    moreover from False es have "\<not> ?R" by auto
    ultimately show ?thesis by blast
  next
    case True
    then obtain domain ext where hs: "Split host dotSeparator = [domain, ext]"
      unfolding length_Split_two by blast
    show ?thesis using es hs ne
      by (simp add: isEmail_def Let_def not_less split: option.splits) blast
  qed
qed

section \<open>Evaluating the concrete inputs\<close>

lemmas sample_simps =
  isEmail_iff atSeparator_def dotSeparator_def unchanged_def
  maxLocalLen_def maxDomainLen_def maxTLDLen_def
  MatchString_userRegexp MatchString_userDotRegexp MatchString_hostRegexp_exec
  starts_with_dot_def ends_with_dot_def inner_dot_def in_class_def userClass_def

lemma sample_address_accepted: "isEmail unchanged ''user@example.com''"
  by (simp add: sample_simps)

lemma no_separator_rejected: "\<not> isEmail toASCII ''nobody''"
  by (simp add: isEmail_iff atSeparator_def)

lemma userClass_not_at: "in_class False userClass c \<Longrightarrow> c \<noteq> atSeparator"
  by (auto simp: in_class_def userClass_def atSeparator_def)

lemma userClass_no_at: "list_all (in_class False userClass) s \<Longrightarrow> atSeparator \<notin> set s"
  using userClass_not_at by (auto simp: list_all_iff)

lemma isEmail_local_conversion:
  assumes "isEmail toASCII (local @ atSeparator # host)"
    and "atSeparator \<notin> set local" and "atSeparator \<notin> set host"
  shows "\<exists>punyLocal. toASCII local = Some punyLocal
           \<and> \<not> MatchString userDotRegexp punyLocal \<and> MatchString userRegexp punyLocal"
proof -
  have es: "Split (local @ atSeparator # host) atSeparator = [local, host]"
    using assms(2,3) by (simp add: Split_two_iff)
  from assms(1) show ?thesis unfolding isEmail_iff es by auto
qed

lemma isEmail_parts:
  assumes "Split email atSeparator = [local, host]"
    and "Split host dotSeparator = [domain, ext]"
  shows "isEmail toASCII email \<longleftrightarrow>
     local \<noteq> [] \<and> length local \<le> maxLocalLen
     \<and> domain \<noteq> [] \<and> length domain \<le> maxDomainLen
     \<and> ext \<noteq> [] \<and> length ext \<le> maxTLDLen
     \<and> (\<exists>punyLocal punyHost.
          toASCII local = Some punyLocal \<and> toASCII host = Some punyHost
          \<and> \<not> MatchString userDotRegexp punyLocal
          \<and> MatchString userRegexp punyLocal
          \<and> MatchString hostRegexp punyHost)"
  unfolding isEmail_iff using assms by auto

lemma Split_example_com:
  "Split ''example.com'' dotSeparator = [''example'', ''com'']"
  by (simp add: dotSeparator_def)

lemma accents33_facts:
  "length accents33 = 66" "utf8_chars accents33 = 33"
  "Split (accents33 @ ''@example.com'') atSeparator = [accents33, ''example.com'']"
  by (simp_all add: accents33_def utf8_chars_def Split_two_iff atSeparator_def)

lemma latin32_facts:
  "length latin32 = 64" "utf8_chars latin32 = 32" "latin32 \<noteq> []"
  "Split (latin32 @ ''@example.com'') atSeparator = [latin32, ''example.com'']"
  by (simp_all add: latin32_def utf8_chars_def Split_two_iff atSeparator_def)

lemma latin32_puny_facts:
  "length latin32_puny = 85"
  "\<not> MatchString userDotRegexp latin32_puny" "MatchString userRegexp latin32_puny"
  by (simp_all add: latin32_puny_def MatchString_userRegexp MatchString_userDotRegexp
      starts_with_dot_def ends_with_dot_def in_class_def userClass_def)

lemma puny_sample_facts:
  "puny_sample latin32 = Some latin32_puny" "puny_sample ''example.com'' = Some ''example.com''"
  by (simp_all add: puny_sample_def latin32_def)

lemma example_com_host: "MatchString hostRegexp ''example.com''"
  by (simp add: MatchString_hostRegexp_exec inner_dot_def in_class_def)

section \<open>Validate\<close>

text \<open>
  Claim C1. \<open>Validate\<close> returns the error of kind \<open>MalformedEntity\<close> exactly when the
  email predicate rejects the \<open>Email\<close> or the \<open>Password\<close> is shorter than 8 bytes, and
  returns no error otherwise. With an accepted \<open>Email\<close>, a password of 7 bytes gives
  \<open>MalformedEntity\<close> and a password of 8 bytes gives no error.
\<close>

theorem Validate_MalformedEntity_iff:
  "(Validate toASCII u = Some MalformedEntity
      \<longleftrightarrow> \<not> isEmail toASCII (Email u) \<or> length (Password u) < 8)
   \<and> (Validate toASCII u = None
      \<longleftrightarrow> \<not> (\<not> isEmail toASCII (Email u) \<or> length (Password u) < 8))
   \<and> (isEmail toASCII (Email u) \<and> length (Password u) = 7
      \<longrightarrow> Validate toASCII u = Some MalformedEntity)
   \<and> (isEmail toASCII (Email u) \<and> length (Password u) = 8
      \<longrightarrow> Validate toASCII u = None)"
  by (simp add: Validate_def ErrMalformedEntity_def minPassLen_def)

theorem Validate_MalformedEntity_iff_witness:
  "isEmail unchanged ''user@example.com''
   \<and> Validate unchanged
        \<lparr>Email = ''user@example.com'', Password = ''1234567'', Metadata = (Map.empty :: string \<rightharpoonup> nat)\<rparr>
       = Some MalformedEntity
   \<and> Validate unchanged
        \<lparr>Email = ''user@example.com'', Password = ''12345678'', Metadata = (Map.empty :: string \<rightharpoonup> nat)\<rparr>
       = None
   \<and> Validate unchanged
        \<lparr>Email = ''nobody'', Password = ''12345678'', Metadata = (Map.empty :: string \<rightharpoonup> nat)\<rparr>
       = Some MalformedEntity"
  using
    Validate_MalformedEntity_iff [of unchanged
      "\<lparr>Email = ''user@example.com'', Password = ''1234567'', Metadata = (Map.empty :: string \<rightharpoonup> nat)\<rparr>"]
    Validate_MalformedEntity_iff [of unchanged
      "\<lparr>Email = ''user@example.com'', Password = ''12345678'', Metadata = (Map.empty :: string \<rightharpoonup> nat)\<rparr>"]
    Validate_MalformedEntity_iff [of unchanged
      "\<lparr>Email = ''nobody'', Password = ''12345678'', Metadata = (Map.empty :: string \<rightharpoonup> nat)\<rparr>"]
    sample_address_accepted no_separator_rejected [of unchanged]
  by simp

text \<open>
  Claim C10. The result of \<open>Validate\<close> depends on \<open>Email\<close> and \<open>Password\<close> only: two
  users with the same \<open>Email\<close> and the same \<open>Password\<close> get the same result, however
  their \<open>Metadata\<close> differ (even in the type of the values).
\<close>

theorem Validate_ignores_Metadata:
  "Email u = Email u' \<Longrightarrow> Password u = Password u' \<Longrightarrow> Validate toASCII u = Validate toASCII u'"
  by (simp add: Validate_def)

theorem Validate_ignores_Metadata_witness:
  "Metadata \<lparr>Email = ''user@example.com'', Password = ''12345678'', Metadata = [''plan'' \<mapsto> (3 :: nat)]\<rparr>
     \<noteq> Metadata \<lparr>Email = ''user@example.com'', Password = ''12345678'', Metadata = (Map.empty :: string \<rightharpoonup> nat)\<rparr>
   \<and> Validate unchanged
        \<lparr>Email = ''user@example.com'', Password = ''12345678'', Metadata = [''plan'' \<mapsto> (3 :: nat)]\<rparr>
     = Validate unchanged
        \<lparr>Email = ''user@example.com'', Password = ''12345678'', Metadata = (Map.empty :: string \<rightharpoonup> nat)\<rparr>
   \<and> Validate unchanged
        \<lparr>Email = ''user@example.com'', Password = ''12345678'', Metadata = (Map.empty :: string \<rightharpoonup> nat)\<rparr>
     = None"
proof -
  have "Validate unchanged
        \<lparr>Email = ''user@example.com'', Password = ''12345678'', Metadata = (Map.empty :: string \<rightharpoonup> nat)\<rparr>
     = None"
    using sample_address_accepted by (simp add: Validate_def minPassLen_def)
  moreover have "[''plan'' \<mapsto> (3 :: nat)] \<noteq> Map.empty" by simp
  ultimately show ?thesis
    using Validate_ignores_Metadata [of
      "\<lparr>Email = ''user@example.com'', Password = ''12345678'', Metadata = [''plan'' \<mapsto> (3 :: nat)]\<rparr>"
      "\<lparr>Email = ''user@example.com'', Password = ''12345678'', Metadata = (Map.empty :: string \<rightharpoonup> nat)\<rparr>"
      unchanged]
    by simp
qed

section \<open>The structure the email predicate requires\<close>

text \<open>
  Claim C4. A string that does not hold exactly one \<open>@\<close> (none, or two or more; the
  empty string too) is rejected by the email predicate, whatever the conversion does.
\<close>

theorem isEmail_needs_one_at:
  "count_list email atSeparator \<noteq> 1 \<Longrightarrow> \<not> isEmail toASCII email"
proof
  assume c: "count_list email atSeparator \<noteq> 1" and "isEmail toASCII email"
  then obtain local host where "Split email atSeparator = [local, host]"
    unfolding isEmail_iff by blast
  then have "length (Split email atSeparator) = 2" by simp
  with c show False by (simp add: length_Split)
qed

theorem isEmail_needs_one_at_witness:
  "count_list '''' atSeparator = 0 \<and> \<not> isEmail unchanged ''''
   \<and> count_list ''user.example.com'' atSeparator = 0 \<and> \<not> isEmail unchanged ''user.example.com''
   \<and> count_list ''a@b@c.com'' atSeparator = 2 \<and> \<not> isEmail unchanged ''a@b@c.com''"
  using isEmail_needs_one_at [of "''''" unchanged]
    isEmail_needs_one_at [of "''user.example.com''" unchanged]
    isEmail_needs_one_at [of "''a@b@c.com''" unchanged]
  by (simp add: atSeparator_def)

text \<open>
  Claim C2. Let \<open>host\<close> be the part after the single \<open>@\<close>. Splitting it on \<open>.\<close> gives
  exactly two parts just when it holds exactly one dot; a host with no dot or with
  more than one dot is rejected, so an address under a sub-domain is rejected.
\<close>

theorem isEmail_needs_one_dot_in_host:
  assumes "atSeparator \<notin> set local" and "atSeparator \<notin> set host"
  shows "(length (Split host dotSeparator) \<noteq> 2 \<longleftrightarrow> count_list host dotSeparator \<noteq> 1)
    \<and> (count_list host dotSeparator \<noteq> 1 \<longrightarrow> \<not> isEmail toASCII (local @ atSeparator # host))"
proof -
  have es: "Split (local @ atSeparator # host) atSeparator = [local, host]"
    using assms by (simp add: Split_two_iff)
  have "\<not> isEmail toASCII (local @ atSeparator # host)"
    if c: "count_list host dotSeparator \<noteq> 1"
  proof
    assume "isEmail toASCII (local @ atSeparator # host)"
    then obtain domain ext where "Split host dotSeparator = [domain, ext]"
      unfolding isEmail_iff es by blast
    then have "length (Split host dotSeparator) = 2" by simp
    with c show False by (simp add: length_Split)
  qed
  then show ?thesis by (simp add: length_Split)
qed

theorem isEmail_needs_one_dot_in_host_witness:
  "atSeparator \<notin> set ''a'' \<and> atSeparator \<notin> set ''bcom'' \<and> atSeparator \<notin> set ''mail.corp.example.com''
   \<and> Split ''bcom'' dotSeparator = [''bcom''] \<and> \<not> isEmail unchanged ''a@bcom''
   \<and> Split ''mail.corp.example.com'' dotSeparator = [''mail'', ''corp'', ''example'', ''com'']
   \<and> \<not> isEmail unchanged ''a@mail.corp.example.com''"
  using isEmail_needs_one_dot_in_host [of "''a''" "''bcom''" unchanged]
    isEmail_needs_one_dot_in_host [of "''a''" "''mail.corp.example.com''" unchanged]
  by (simp add: atSeparator_def dotSeparator_def)

section \<open>Dots in the local part\<close>

text \<open>
  Claim C6. If the encoded local part starts with a dot, ends with a dot or holds two
  or more dots in a row, the email predicate returns false. So \<open>.a@b.com\<close>,
  \<open>a.@b.com\<close> and \<open>a..b@c.com\<close> are rejected, the conversion returning these
  all-ASCII local parts as they are.
\<close>

theorem isEmail_rejects_dotted_local:
  "(atSeparator \<notin> set local \<and> atSeparator \<notin> set host \<and> toASCII local = Some punyLocal
      \<and> (starts_with_dot punyLocal \<or> ends_with_dot punyLocal \<or> consecutive_dots punyLocal)
      \<longrightarrow> \<not> isEmail toASCII (local @ atSeparator # host))
   \<and> (toASCII ''.a'' = Some ''.a'' \<longrightarrow> \<not> isEmail toASCII ''.a@b.com'')
   \<and> (toASCII ''a.'' = Some ''a.'' \<longrightarrow> \<not> isEmail toASCII ''a.@b.com'')
   \<and> (toASCII ''a..b'' = Some ''a..b'' \<longrightarrow> \<not> isEmail toASCII ''a..b@c.com'')"
proof -
  have general: "\<not> isEmail toASCII (l @ atSeparator # h)"
    if "atSeparator \<notin> set l" "atSeparator \<notin> set h" "toASCII l = Some p"
      "starts_with_dot p \<or> ends_with_dot p \<or> consecutive_dots p" for l h p
  proof
    assume "isEmail toASCII (l @ atSeparator # h)"
    from isEmail_local_conversion [OF this that(1,2)] that(3)
    have "\<not> MatchString userDotRegexp p" by auto
    with that(4) show False by (simp add: MatchString_userDotRegexp)
  qed
  have a: "\<not> isEmail toASCII ''.a@b.com''" if "toASCII ''.a'' = Some ''.a''"
    using general [of "''.a''" "''b.com''" "''.a''"] that
    by (simp add: atSeparator_def starts_with_dot_def)
  have b: "\<not> isEmail toASCII ''a.@b.com''" if "toASCII ''a.'' = Some ''a.''"
    using general [of "''a.''" "''b.com''" "''a.''"] that
    by (simp add: atSeparator_def ends_with_dot_def)
  have c: "\<not> isEmail toASCII ''a..b@c.com''" if "toASCII ''a..b'' = Some ''a..b''"
    using general [of "''a..b''" "''c.com''" "''a..b''"] that
    by (simp add: atSeparator_def)
  from general a b c show ?thesis by blast
qed

theorem isEmail_rejects_dotted_local_witness:
  "unchanged ''.a'' = Some ''.a'' \<and> starts_with_dot ''.a'' \<and> \<not> isEmail unchanged ''.a@b.com''
   \<and> unchanged ''a.'' = Some ''a.'' \<and> ends_with_dot ''a.'' \<and> \<not> isEmail unchanged ''a.@b.com''
   \<and> unchanged ''a..b'' = Some ''a..b'' \<and> consecutive_dots ''a..b'' \<and> \<not> isEmail unchanged ''a..b@c.com''
   \<and> atSeparator \<notin> set ''x.y.'' \<and> atSeparator \<notin> set ''example.com''
   \<and> \<not> isEmail unchanged (''x.y.'' @ atSeparator # ''example.com'')"
  using isEmail_rejects_dotted_local [of "''x.y.''" "''example.com''" unchanged "''x.y.''"]
  by (simp add: unchanged_def starts_with_dot_def ends_with_dot_def atSeparator_def)

section \<open>Length limits\<close>

text \<open>
  Claim C5. Take an address that passes every other check of the email predicate: the
  local part is drawn from the allowed set of bytes, the host holds no \<open>@\<close> and splits
  into a domain and an extension within their limits, both conversions succeed and
  their results pass the three patterns. If the local part has exactly 64 bytes the
  address is accepted, and if it has 65 bytes the address is rejected.
\<close>

theorem isEmail_local_length_boundary:
  assumes "list_all (in_class False userClass) local"
    and "atSeparator \<notin> set host"
    and "Split host dotSeparator = [domain, ext]"
    and "domain \<noteq> []" and "length domain \<le> maxDomainLen"
    and "ext \<noteq> []" and "length ext \<le> maxTLDLen"
    and "toASCII local = Some punyLocal" and "toASCII host = Some punyHost"
    and "\<not> MatchString userDotRegexp punyLocal"
    and "MatchString userRegexp punyLocal"
    and "MatchString hostRegexp punyHost"
  shows "(length local = 64 \<longrightarrow> isEmail toASCII (local @ atSeparator # host))
    \<and> (length local = 65 \<longrightarrow> \<not> isEmail toASCII (local @ atSeparator # host))"
proof -
  have "atSeparator \<notin> set local" using assms(1) by (rule userClass_no_at)
  then have es: "Split (local @ atSeparator # host) atSeparator = [local, host]"
    using assms(2) by (simp add: Split_two_iff)
  show ?thesis
    unfolding isEmail_iff es using assms(3-) by (auto simp: maxLocalLen_def)
qed

theorem isEmail_local_length_boundary_witness:
  "length local64 = 64 \<and> list_all (in_class False userClass) local64
   \<and> isEmail unchanged (local64 @ ''@example.com'')
   \<and> length local65 = 65 \<and> list_all (in_class False userClass) local65
   \<and> \<not> isEmail unchanged (local65 @ ''@example.com'')"
proof -
  have c64: "list_all (in_class False userClass) local64"
    by (simp add: local64_def in_class_def userClass_def)
  have c65: "list_all (in_class False userClass) local65"
    by (simp add: local65_def in_class_def userClass_def)
  have host: "atSeparator \<notin> set ''example.com''"
    "Split ''example.com'' dotSeparator = [''example'', ''com'']"
    "''example'' \<noteq> []" "length ''example'' \<le> maxDomainLen"
    "''com'' \<noteq> []" "length ''com'' \<le> maxTLDLen"
    "unchanged ''example.com'' = Some ''example.com''"
    "MatchString hostRegexp ''example.com''"
    by (simp_all add: atSeparator_def dotSeparator_def maxDomainLen_def maxTLDLen_def
        unchanged_def MatchString_hostRegexp_exec inner_dot_def in_class_def)
  have l64: "length local64 = 64" "unchanged local64 = Some local64"
    "\<not> MatchString userDotRegexp local64" "MatchString userRegexp local64"
    using c64 by (simp_all add: unchanged_def MatchString_userRegexp MatchString_userDotRegexp
        starts_with_dot_def ends_with_dot_def) (simp_all add: local64_def)
  have l65: "length local65 = 65" "unchanged local65 = Some local65"
    "\<not> MatchString userDotRegexp local65" "MatchString userRegexp local65"
    using c65 by (simp_all add: unchanged_def MatchString_userRegexp MatchString_userDotRegexp
        starts_with_dot_def ends_with_dot_def) (simp_all add: local65_def)
  from isEmail_local_length_boundary [OF c64 host(1-6) l64(2) host(7) l64(3,4) host(8)]
    isEmail_local_length_boundary [OF c65 host(1-6) l65(2) host(7) l65(3,4) host(8)]
  show ?thesis using c64 c65 l64(1) l65(1) by (simp add: atSeparator_def)
qed

text \<open>
  Claim C9. With \<open>local\<close>, \<open>host\<close>, \<open>domain\<close> and \<open>ext\<close> the pieces the code cuts
  out of the raw input: the limits 64, 255 and 24 bound the byte lengths of these raw
  pieces. A local part of more than 64 bytes is rejected even when it has no more than
  64 Unicode characters, and an address whose raw pieces are within the limits is
  accepted even when the encoded local part is longer than 64 bytes.
\<close>

theorem isEmail_limits_count_raw_bytes:
  assumes "Split email atSeparator = [local, host]"
    and "Split host dotSeparator = [domain, ext]"
  shows "(length local > 64 \<or> length domain > 255 \<or> length ext > 24
            \<longrightarrow> \<not> isEmail toASCII email)
    \<and> (utf8_chars local \<le> 64 \<and> length local > 64 \<longrightarrow> \<not> isEmail toASCII email)
    \<and> (local \<noteq> [] \<and> length local \<le> 64 \<and> domain \<noteq> [] \<and> length domain \<le> 255
          \<and> ext \<noteq> [] \<and> length ext \<le> 24
          \<and> toASCII local = Some punyLocal \<and> toASCII host = Some punyHost
          \<and> \<not> MatchString userDotRegexp punyLocal \<and> MatchString userRegexp punyLocal
          \<and> MatchString hostRegexp punyHost
          \<and> length punyLocal > 64
        \<longrightarrow> isEmail toASCII email)"
  unfolding isEmail_parts [OF assms]
  by (auto simp: maxLocalLen_def maxDomainLen_def maxTLDLen_def)

theorem isEmail_limits_count_raw_bytes_witness:
  "utf8_chars accents33 = 33 \<and> length accents33 = 66
   \<and> \<not> isEmail puny_sample (accents33 @ ''@example.com'')
   \<and> length latin32 = 64 \<and> puny_sample latin32 = Some latin32_puny \<and> length latin32_puny = 85
   \<and> isEmail puny_sample (latin32 @ ''@example.com'')"
  using
    isEmail_limits_count_raw_bytes [OF accents33_facts(3) Split_example_com, of puny_sample]
    isEmail_limits_count_raw_bytes [OF latin32_facts(4) Split_example_com,
      of puny_sample latin32_puny "''example.com''"]
    accents33_facts(1,2) latin32_facts(1,3) latin32_puny_facts puny_sample_facts example_com_host
  by simp

section \<open>Concrete addresses\<close>

text \<open>
  The address \<open>a.b+c@sub.example.io\<close> has the host \<open>sub.example.io\<close>, which splits on
  \<open>.\<close> into three parts, so the email predicate does not accept it together with
  \<open>user@example.com\<close>.
\<close>

theorem isEmail_sample_addresses_counterexample:
  "\<not> (isEmail unchanged ''user@example.com'' \<and> isEmail unchanged ''a.b+c@sub.example.io'')"
  by (simp add: isEmail_iff [of unchanged "''a.b+c@sub.example.io''"] atSeparator_def dotSeparator_def)

text \<open>
  Claim C3, as the code has it. The email predicate returns true for
  \<open>user@example.com\<close> whenever the conversion returns \<open>user\<close> and \<open>example.com\<close> as
  they are, and it returns false for \<open>a.b+c@sub.example.io\<close>, whatever the conversion
  does.
\<close>

theorem isEmail_sample_addresses:
  "(toASCII ''user'' = Some ''user'' \<and> toASCII ''example.com'' = Some ''example.com''
      \<longrightarrow> isEmail toASCII ''user@example.com'')
   \<and> \<not> isEmail toASCII ''a.b+c@sub.example.io''"
  by (simp add: isEmail_iff atSeparator_def dotSeparator_def
     maxLocalLen_def maxDomainLen_def maxTLDLen_def
     MatchString_userRegexp MatchString_userDotRegexp MatchString_hostRegexp_exec
     starts_with_dot_def ends_with_dot_def inner_dot_def in_class_def userClass_def)

theorem isEmail_sample_addresses_witness:
  "unchanged ''user'' = Some ''user'' \<and> unchanged ''example.com'' = Some ''example.com''
   \<and> isEmail unchanged ''user@example.com'' \<and> \<not> isEmail unchanged ''a.b+c@sub.example.io''"
  using isEmail_sample_addresses [of unchanged] by (simp add: unchanged_def)

section \<open>Effects\<close>

text \<open>
  Running either body leaves the store as it was, and its result depends on the store
  through the package variables only; with these as declared it is the result of the
  functions \<open>isEmail\<close> and \<open>Validate\<close> above.
\<close>

lemma run_read: "run_state (read field) \<sigma> = (field \<sigma>, \<sigma>)"
  by (simp add: read_def)

lemma isEmail_m_store: "snd (run_state (isEmail_m toASCII email) \<sigma>) = \<sigma>"
  by (simp add: isEmail_m_def Let_def run_read split: option.split)

lemma isEmail_m_result:
  "package_init \<sigma> \<Longrightarrow> fst (run_state (isEmail_m toASCII email) \<sigma>) = isEmail toASCII email"
  by (simp add: isEmail_m_def isEmail_def package_init_def Let_def run_read split: option.split)

lemma isEmail_m_reads:
  assumes "userRegexp_var \<sigma> = userRegexp_var \<sigma>'" "hostRegexp_var \<sigma> = hostRegexp_var \<sigma>'"
    "userDotRegexp_var \<sigma> = userDotRegexp_var \<sigma>'"
  shows "fst (run_state (isEmail_m toASCII email) \<sigma>) = fst (run_state (isEmail_m toASCII email) \<sigma>')"
  using assms by (simp add: isEmail_m_def Let_def run_read split: option.split)

lemma run_isEmail_m:
  "run_state (isEmail_m toASCII email) \<sigma> = (fst (run_state (isEmail_m toASCII email) \<sigma>), \<sigma>)"
  using isEmail_m_store [of toASCII email \<sigma>] by (simp add: prod_eq_iff)

lemma run_Validate_m:
  "run_state (Validate_m toASCII) \<sigma> =
     (if \<not> fst (run_state (isEmail_m toASCII (Email (receiver \<sigma>))) \<sigma>)
        then Some ErrMalformedEntity
      else if length (Password (receiver \<sigma>)) < minPassLen then Some ErrMalformedEntity
      else None, \<sigma>)"
proof -
  obtain b where b: "run_state (isEmail_m toASCII (Email (receiver \<sigma>))) \<sigma> = (b, \<sigma>)"
    using run_isEmail_m by blast
  show ?thesis by (simp add: Validate_m_def run_read b)
qed

lemma Validate_m_store: "snd (run_state (Validate_m toASCII) \<sigma>) = \<sigma>"
  by (simp add: run_Validate_m)

lemma Validate_m_result:
  "package_init \<sigma> \<Longrightarrow>
     fst (run_state (Validate_m toASCII) \<sigma>) = Validate toASCII (receiver \<sigma>)"
  by (simp add: run_Validate_m isEmail_m_result Validate_def)

lemma sample_store_facts:
  "package_init sample_store"
  "receiver sample_store =
     \<lparr>Email = ''user@example.com'', Password = ''secret'', Metadata = [''plan'' \<mapsto> 3]\<rparr>"
  "run_state (isEmail_m unchanged ''user@example.com'') sample_store = (True, sample_store)"
  "run_state (Validate_m unchanged) sample_store = (Some MalformedEntity, sample_store)"
proof -
  show init: "package_init sample_store" by (simp add: package_init_def sample_store_def)
  show rcv: "receiver sample_store =
     \<lparr>Email = ''user@example.com'', Password = ''secret'', Metadata = [''plan'' \<mapsto> 3]\<rparr>"
    by (simp add: sample_store_def)
  have "fst (run_state (isEmail_m unchanged ''user@example.com'') sample_store)"
    using isEmail_m_result [OF init, of unchanged "''user@example.com''"] sample_address_accepted
    by simp
  then show "run_state (isEmail_m unchanged ''user@example.com'') sample_store = (True, sample_store)"
    using isEmail_m_store [of unchanged "''user@example.com''" sample_store]
    by (simp add: prod_eq_iff)
  have "fst (run_state (Validate_m unchanged) sample_store) = Some MalformedEntity"
    using Validate_m_result [OF init, of unchanged] sample_address_accepted
    by (simp add: rcv Validate_def minPassLen_def ErrMalformedEntity_def)
  then show "run_state (Validate_m unchanged) sample_store = (Some MalformedEntity, sample_store)"
    using Validate_m_store [of unchanged sample_store] by (simp add: prod_eq_iff)
qed

text \<open>
  Claim C7. The email predicate and \<open>Validate\<close> are deterministic and keep no state.
  In any store, calling the email predicate twice in a row on the same string gives
  the same boolean twice, calling \<open>Validate\<close> twice in a row on the same \<open>User\<close>
  gives the same result twice, and the store after the two calls is the store before
  them. With the package variables as declared, the results are those of the functions
  \<open>isEmail\<close> and \<open>Validate\<close> of the input alone.
\<close>

theorem calls_are_deterministic:
  "run_state (do { b1 \<leftarrow> isEmail_m toASCII email; b2 \<leftarrow> isEmail_m toASCII email;
                   return (b1 = b2) }) \<sigma> = (True, \<sigma>)
   \<and> run_state (do { r1 \<leftarrow> Validate_m toASCII; r2 \<leftarrow> Validate_m toASCII;
                     return (r1 = r2) }) \<sigma> = (True, \<sigma>)
   \<and> (package_init \<sigma> \<longrightarrow>
        run_state (isEmail_m toASCII email) \<sigma> = (isEmail toASCII email, \<sigma>)
        \<and> run_state (Validate_m toASCII) \<sigma> = (Validate toASCII (receiver \<sigma>), \<sigma>))"
proof -
  obtain b where b: "run_state (isEmail_m toASCII email) \<sigma> = (b, \<sigma>)"
    using run_isEmail_m by blast
  obtain r where r: "run_state (Validate_m toASCII) \<sigma> = (r, \<sigma>)"
    using Validate_m_store [of toASCII \<sigma>] by (metis prod.collapse)
  have twice_isEmail: "run_state (do { b1 \<leftarrow> isEmail_m toASCII email;
      b2 \<leftarrow> isEmail_m toASCII email; return (b1 = b2) }) \<sigma> = (True, \<sigma>)"
    by (simp add: b)
  have twice_Validate: "run_state (do { r1 \<leftarrow> Validate_m toASCII;
      r2 \<leftarrow> Validate_m toASCII; return (r1 = r2) }) \<sigma> = (True, \<sigma>)"
    by (simp add: r)
  have "run_state (isEmail_m toASCII email) \<sigma> = (isEmail toASCII email, \<sigma>)"
    and "run_state (Validate_m toASCII) \<sigma> = (Validate toASCII (receiver \<sigma>), \<sigma>)"
    if "package_init \<sigma>"
    using isEmail_m_result [OF that, of toASCII email] Validate_m_result [OF that, of toASCII] b r
    by simp_all
  with twice_isEmail twice_Validate show ?thesis by blast
qed

theorem calls_are_deterministic_witness:
  "package_init sample_store
   \<and> run_state (do { b1 \<leftarrow> isEmail_m unchanged ''user@example.com'';
                     b2 \<leftarrow> isEmail_m unchanged ''user@example.com'';
                     return (b1 = b2) }) sample_store = (True, sample_store)
   \<and> run_state (do { r1 \<leftarrow> Validate_m unchanged; r2 \<leftarrow> Validate_m unchanged;
                     return (r1 = r2) }) sample_store = (True, sample_store)
   \<and> run_state (isEmail_m unchanged ''user@example.com'') sample_store = (True, sample_store)
   \<and> run_state (Validate_m unchanged) sample_store = (Some MalformedEntity, sample_store)"
  using calls_are_deterministic [of unchanged "''user@example.com''" sample_store]
    sample_store_facts(1,3,4)
  by simp

text \<open>
  Claim C8. A call of \<open>Validate\<close> leaves the \<open>User\<close> as it was: the \<open>Email\<close>, the
  \<open>Password\<close> and the \<open>Metadata\<close> of the receiver are the same after the call as
  before, and nothing else in the store has changed.
\<close>

theorem Validate_leaves_User_unchanged:
  "run_state (Validate_m toASCII) \<sigma> = (r, \<sigma>') \<Longrightarrow>
     receiver \<sigma>' = receiver \<sigma>
     \<and> Email (receiver \<sigma>') = Email (receiver \<sigma>)
     \<and> Password (receiver \<sigma>') = Password (receiver \<sigma>)
     \<and> Metadata (receiver \<sigma>') = Metadata (receiver \<sigma>)
     \<and> \<sigma>' = \<sigma>"
  using Validate_m_store [of toASCII \<sigma>] by simp

theorem Validate_leaves_User_unchanged_witness:
  "run_state (Validate_m unchanged) sample_store = (Some MalformedEntity, sample_store)
   \<and> Email (receiver sample_store) = ''user@example.com''
   \<and> Password (receiver sample_store) = ''secret''
   \<and> Metadata (receiver sample_store) = [''plan'' \<mapsto> 3]"
  using Validate_leaves_User_unchanged [OF sample_store_facts(4)] sample_store_facts(2,4)
  by simp

end
